theory Spec2Isabelle
  imports Main
begin

section \<open>Data model\<close>

text \<open>
  The decision logic of \<^verbatim>\<open>src/enfin.py\<close> lives in the three closures of \<^verbatim>\<open>RI_SDN\<close>:
  \<^verbatim>\<open>adjacency_matrix\<close>, \<^verbatim>\<open>most_connected_nodes\<close> and \<^verbatim>\<open>determine_anchor\<close>.
  They share the list \<^verbatim>\<open>nodes\<close> of the enclosing scope, which is an explicit argument here.

  A numpy array of shape (N, M) is a list of N rows of M entries. The builder stores only
  the floats 0.0 and 1.0, whose sums are exact, so entries and row sums are integers.
  Indices are the non-negative positions \<^verbatim>\<open>np.where\<close> returns.

  The two exceptions the closures can raise are values: \<^verbatim>\<open>np.max\<close> and \<^verbatim>\<open>np.min\<close> of
  an empty array raise \<^verbatim>\<open>ValueError\<close>, an index out of range raises \<^verbatim>\<open>IndexError\<close>.
\<close>

datatype py_error = IndexError | ValueError

type_synonym matrix = "int list list"

section \<open>The numpy operations the source calls\<close>

text \<open>\<^verbatim>\<open>a.sum(axis=1)\<close> and \<^verbatim>\<open>np.sum(a, axis=1)\<close>: one sum per row.\<close>

definition np_sum_axis1 :: "matrix \<Rightarrow> int list" where
  "np_sum_axis1 a = map sum_list a"

text \<open>\<^verbatim>\<open>np.max(v)\<close> and \<^verbatim>\<open>np.min(v)\<close>: a zero-size array has no maximum.\<close>

definition np_max :: "int list \<Rightarrow> py_error + int" where
  "np_max v = (case v of [] \<Rightarrow> Inl ValueError | x # xs \<Rightarrow> Inr (fold max xs x))"

definition np_min :: "int list \<Rightarrow> py_error + int" where
  "np_min v = (case v of [] \<Rightarrow> Inl ValueError | x # xs \<Rightarrow> Inr (fold min xs x))"

text \<open>\<^verbatim>\<open>np.where(v == c)[0]\<close>: the positions of \<open>v\<close> holding \<open>c\<close>, ascending.\<close>

definition np_where_eq :: "int list \<Rightarrow> int \<Rightarrow> nat list" where
  "np_where_eq v c = filter (\<lambda>i. v ! i = c) [0..<length v]"

text \<open>\<^verbatim>\<open>a[rows]\<close> with an index array: the listed rows, in the listed order.\<close>

definition np_take_rows :: "matrix \<Rightarrow> nat list \<Rightarrow> py_error + matrix" where
  "np_take_rows a rows =
     (if list_all (\<lambda>k. k < length a) rows then Inr (map (\<lambda>k. a ! k) rows)
      else Inl IndexError)"

text \<open>\<^verbatim>\<open>a[i, j]\<close>, \<^verbatim>\<open>nodes[i]\<close> and \<^verbatim>\<open>v[0]\<close>, each raising out of range.\<close>

definition entry :: "matrix \<Rightarrow> nat \<Rightarrow> nat \<Rightarrow> py_error + int" where
  "entry a i j =
     (if i < length a \<and> j < length (a ! i) then Inr (a ! i ! j) else Inl IndexError)"

definition nodes_at :: "'node list \<Rightarrow> nat \<Rightarrow> py_error + 'node" where
  "nodes_at nodes i = (if i < length nodes then Inr (nodes ! i) else Inl IndexError)"

definition first_of :: "nat list \<Rightarrow> py_error + nat" where
  "first_of v = (case v of [] \<Rightarrow> Inl IndexError | x # xs \<Rightarrow> Inr x)"

section \<open>The closures of \<^verbatim>\<open>RI_SDN\<close>\<close>

text \<open>
  \<^verbatim>\<open>adjacency_matrix\<close> (lines 112-120). \<^verbatim>\<open>connectionsTo\<close> is a method of the simulator's
  node objects and not part of the repository: it is the parameter \<open>connectionsTo\<close>,
  called as \<^verbatim>\<open>node.connectionsTo(nodes)\<close>, with \<^verbatim>\<open>neighbor in ...\<close> as membership.
  The matrix starts as \<^verbatim>\<open>np.zeros((num_nodes, num_nodes))\<close> and an entry becomes 1 where
  the test succeeds. The function has no \<^verbatim>\<open>raise\<close> and no check of \<^verbatim>\<open>num_nodes\<close>.
\<close>

definition adjacency_matrix ::
  "'node list \<Rightarrow> ('node \<Rightarrow> 'node list \<Rightarrow> 'node list) \<Rightarrow> matrix" where
  "adjacency_matrix nodes connectionsTo =
     map (\<lambda>node.
       map (\<lambda>neighbor. if neighbor \<in> set (connectionsTo node nodes) then 1 else 0) nodes)
       nodes"

text \<open>\<^verbatim>\<open>most_connected_nodes\<close> (lines 122-127).\<close>

definition connections :: "matrix \<Rightarrow> int list" where
  "connections adj_matrix = np_sum_axis1 adj_matrix"

definition most_connected_nodes :: "matrix \<Rightarrow> py_error + nat list" where
  "most_connected_nodes adj_matrix =
     (case np_max (connections adj_matrix) of
        Inl e \<Rightarrow> Inl e
      | Inr max_connections \<Rightarrow> Inr (np_where_eq (connections adj_matrix) max_connections))"

text \<open>
  \<^verbatim>\<open>determine_anchor\<close>, lines 134-137: the two nested loops over \<^verbatim>\<open>smc\<close>. The inner loop
  answers whether some \<open>j\<close> with \<^verbatim>\<open>i != j and adj_matrix[i, j] == 0\<close> exists; Python's
  \<^verbatim>\<open>and\<close> reads the entry only when \<open>i \<noteq> j\<close>. The outer loop returns the first \<open>i\<close>
  whose inner loop succeeds.
\<close>

fun scan_inner :: "matrix \<Rightarrow> nat \<Rightarrow> nat list \<Rightarrow> py_error + bool" where
  "scan_inner a i [] = Inr False"
| "scan_inner a i (j # js) =
     (if i \<noteq> j then
        (case entry a i j of
           Inl e \<Rightarrow> Inl e
         | Inr x \<Rightarrow> if x = 0 then Inr True else scan_inner a i js)
      else scan_inner a i js)"

fun scan_outer :: "matrix \<Rightarrow> nat list \<Rightarrow> nat list \<Rightarrow> py_error + nat option" where
  "scan_outer a smc [] = Inr None"
| "scan_outer a smc (i # is) =
     (case scan_inner a i smc of
        Inl e \<Rightarrow> Inl e
      | Inr True \<Rightarrow> Inr (Some i)
      | Inr False \<Rightarrow> scan_outer a smc is)"

text \<open>Lines 139-141: the vector \<^verbatim>\<open>distances\<close> and the set \<^verbatim>\<open>sdc\<close> of its minima.\<close>

definition distances :: "matrix \<Rightarrow> int list" where
  "distances adj_matrix = np_sum_axis1 adj_matrix"

definition min_distance_set :: "matrix \<Rightarrow> py_error + nat list" where
  "min_distance_set adj_matrix =
     (case np_min (distances adj_matrix) of
        Inl e \<Rightarrow> Inl e
      | Inr min_distance \<Rightarrow> Inr (np_where_eq (distances adj_matrix) min_distance))"

text \<open>
  Lines 146-149: \<^verbatim>\<open>smc_connections\<close> has one entry per member of \<^verbatim>\<open>sdc\<close>, and
  \<^verbatim>\<open>anchor_candidates\<close> are positions of \<^verbatim>\<open>smc_connections\<close>. The source indexes
  \<^verbatim>\<open>nodes\<close> with \<^verbatim>\<open>anchor_candidates[0]\<close> itself.
\<close>

definition secondary_choice :: "matrix \<Rightarrow> nat list \<Rightarrow> py_error + nat" where
  "secondary_choice adj_matrix sdc =
     (case np_take_rows adj_matrix sdc of
        Inl e \<Rightarrow> Inl e
      | Inr rows \<Rightarrow>
          (case np_max (np_sum_axis1 rows) of
             Inl e \<Rightarrow> Inl e
           | Inr max_smc_connections \<Rightarrow>
               first_of (np_where_eq (np_sum_axis1 rows) max_smc_connections)))"

text \<open>\<^verbatim>\<open>determine_anchor\<close> (lines 129-149).\<close>

definition determine_anchor :: "'node list \<Rightarrow> nat list \<Rightarrow> matrix \<Rightarrow> py_error + 'node" where
  "determine_anchor nodes smc adj_matrix =
     (if length smc = 1 then nodes_at nodes (smc ! 0)
      else
        (case scan_outer adj_matrix smc smc of
           Inl e \<Rightarrow> Inl e
         | Inr (Some i) \<Rightarrow> nodes_at nodes i
         | Inr None \<Rightarrow>
             (case min_distance_set adj_matrix of
                Inl e \<Rightarrow> Inl e
              | Inr sdc \<Rightarrow>
                  if length sdc = 1 then nodes_at nodes (sdc ! 0)
                  else
                    (case secondary_choice adj_matrix sdc of
                       Inl e \<Rightarrow> Inl e
                     | Inr k \<Rightarrow> nodes_at nodes k))))"

text \<open>
  The body of \<^verbatim>\<open>RI_SDN\<close> (lines 156-158): build, select, resolve. The value is the anchor
  the source then logs.
\<close>

definition RI_SDN ::
  "'node list \<Rightarrow> ('node \<Rightarrow> 'node list \<Rightarrow> 'node list) \<Rightarrow> py_error + 'node" where
  "RI_SDN nodes connectionsTo =
     (case most_connected_nodes (adjacency_matrix nodes connectionsTo) of
        Inl e \<Rightarrow> Inl e
      | Inr smc \<Rightarrow> determine_anchor nodes smc (adjacency_matrix nodes connectionsTo))"

section \<open>Predicates of the specification\<close>

text \<open>
  The vocabulary the properties are stated in. An adjacency matrix is \<open>square\<close> when every
  row is as long as the matrix is high; a candidate list has \<open>valid_indices\<close> when every
  member is a row of the matrix.
\<close>

definition square :: "matrix \<Rightarrow> bool" where
  "square a = list_all (\<lambda>row. length row = length a) a"

definition valid_indices :: "matrix \<Rightarrow> nat list \<Rightarrow> bool" where
  "valid_indices a smc = list_all (\<lambda>i. i < length a) smc"

text \<open>Node \<open>k\<close> alone attains the maximum (minimum) row sum.\<close>

definition unique_max_degree :: "matrix \<Rightarrow> nat \<Rightarrow> bool" where
  "unique_max_degree a k =
     (k < length a \<and>
      list_all (\<lambda>j. j = k \<or> connections a ! j < connections a ! k) [0..<length a])"

definition unique_min_degree :: "matrix \<Rightarrow> nat \<Rightarrow> bool" where
  "unique_min_degree a k =
     (k < length a \<and>
      list_all (\<lambda>j. j = k \<or> connections a ! k < connections a ! j) [0..<length a])"

text \<open>
  The internal-disconnection rule as the specification words it: all ordered pairs over
  the candidates, the outer component varying slowest, and the first pair of distinct
  indices whose entry is zero.
\<close>

definition first_disconnected_pair :: "matrix \<Rightarrow> nat list \<Rightarrow> (nat \<times> nat) option" where
  "first_disconnected_pair a smc =
     find (\<lambda>(i, j). i \<noteq> j \<and> a ! i ! j = 0) (List.product smc smc)"

text \<open>Every ordered pair of distinct candidates has a non-zero entry.\<close>

definition forms_clique :: "matrix \<Rightarrow> nat list \<Rightarrow> bool" where
  "forms_clique a smc =
     list_all (\<lambda>i. list_all (\<lambda>j. i = j \<or> a ! i ! j \<noteq> 0) smc) smc"

text \<open>Symmetry and zero diagonal of a matrix, over all its rows.\<close>

definition symmetric :: "matrix \<Rightarrow> bool" where
  "symmetric a =
     list_all (\<lambda>i. list_all (\<lambda>j. a ! i ! j = a ! j ! i) [0..<length a]) [0..<length a]"

definition zero_diagonal :: "matrix \<Rightarrow> bool" where
  "zero_diagonal a = list_all (\<lambda>i. a ! i ! i = 0) [0..<length a]"


text \<open>
  What the specification assumes of connectivity: it is undirected, and no node is its
  own neighbour.
\<close>

definition undirected_probe ::
  "'node list \<Rightarrow> ('node \<Rightarrow> 'node list \<Rightarrow> 'node list) \<Rightarrow> bool" where
  "undirected_probe nodes connectionsTo =
     list_all (\<lambda>x. list_all (\<lambda>y.
        (y \<in> set (connectionsTo x nodes)) = (x \<in> set (connectionsTo y nodes))) nodes) nodes"

definition loop_free_probe ::
  "'node list \<Rightarrow> ('node \<Rightarrow> 'node list \<Rightarrow> 'node list) \<Rightarrow> bool" where
  "loop_free_probe nodes connectionsTo =
     list_all (\<lambda>x. x \<notin> set (connectionsTo x nodes)) nodes"

section \<open>Example snapshots\<close>

text \<open>
  Concrete probes for the examples. \<open>link_probe\<close> reads a list of links as undirected: the
  neighbours of a node are the other ends of its links. \<open>one_way_probe\<close> reports a link
  from its first end only.
\<close>

definition link_probe ::
  "('node \<times> 'node) list \<Rightarrow> 'node \<Rightarrow> 'node list \<Rightarrow> 'node list" where
  "link_probe links node nodes =
     map snd (filter (\<lambda>l. fst l = node) links) @ map fst (filter (\<lambda>l. snd l = node) links)"

definition one_way_probe ::
  "('node \<times> 'node) list \<Rightarrow> 'node \<Rightarrow> 'node list \<Rightarrow> 'node list" where
  "one_way_probe links node nodes = map snd (filter (\<lambda>l. fst l = node) links)"

definition four_nodes :: "string list" where
  "four_nodes = [''sta1'', ''sta2'', ''ap1'', ''s1'']"

text \<open>Scenario A: the star around node 0.\<close>

definition star_links :: "(string \<times> string) list" where
  "star_links = [(''sta1'', ''sta2''), (''sta1'', ''ap1''), (''sta1'', ''s1'')]"

text \<open>Scenario B: the two disjoint pairs 0-1 and 2-3.\<close>

definition pairs_links :: "(string \<times> string) list" where
  "pairs_links = [(''sta1'', ''sta2''), (''ap1'', ''s1'')]"

definition pairs_matrix :: matrix where
  "pairs_matrix = [[0, 1, 0, 0], [1, 0, 0, 0], [0, 0, 0, 1], [0, 0, 1, 0]]"

text \<open>The path 0-1-2-3.\<close>

definition path_links :: "(string \<times> string) list" where
  "path_links = [(''sta1'', ''sta2''), (''sta2'', ''ap1''), (''ap1'', ''s1'')]"

definition path_matrix :: matrix where
  "path_matrix = [[0, 1, 0, 0], [1, 0, 1, 0], [0, 1, 0, 1], [0, 0, 1, 0]]"

text \<open>The links 0-1, 0-2 and 1-3: nodes 0 and 1 have degree 2, nodes 2 and 3 degree 1.\<close>

definition fork_links :: "(string \<times> string) list" where
  "fork_links = [(''sta1'', ''sta2''), (''sta1'', ''ap1''), (''sta2'', ''s1'')]"

definition fork_matrix :: matrix where
  "fork_matrix = [[0, 1, 1, 0], [1, 0, 0, 1], [1, 0, 0, 0], [0, 1, 0, 0]]"

text \<open>Three nodes, one link 0-1; node 2 has no link.\<close>

definition three_nodes :: "string list" where
  "three_nodes = [''sta1'', ''sta2'', ''ap1'']"

definition lone_links :: "(string \<times> string) list" where
  "lone_links = [(''sta1'', ''sta2'')]"

definition lone_matrix :: matrix where
  "lone_matrix = [[0, 1, 0], [1, 0, 0], [0, 0, 0]]"

text \<open>
  Two nodes whose probe is not that of an undirected loop-free graph: a link reported
  from one end only, and a link from a node to itself.
\<close>

definition two_nodes :: "string list" where
  "two_nodes = [''sta1'', ''ap1'']"

definition one_way_links :: "(string \<times> string) list" where
  "one_way_links = [(''sta1'', ''ap1'')]"

definition one_way_matrix :: matrix where
  "one_way_matrix = [[0, 1], [0, 0]]"

definition self_links :: "(string \<times> string) list" where
  "self_links = [(''sta1'', ''sta1'')]"



section \<open>Facts about the numpy operations\<close>

lemma np_max_Inr: "np_max v = Inr mx \<longleftrightarrow> v \<noteq> [] \<and> mx = Max (set v)"
  using Max.set_eq_fold [of _ "tl v"] by (cases v) (auto simp: np_max_def)

lemma np_min_Inr: "np_min v = Inr mn \<longleftrightarrow> v \<noteq> [] \<and> mn = Min (set v)"
  using Min.set_eq_fold [of _ "tl v"] by (cases v) (auto simp: np_min_def)

lemma np_max_empty: "np_max [] = Inl ValueError"
  by (simp add: np_max_def)

lemma np_min_empty: "np_min [] = Inl ValueError"
  by (simp add: np_min_def)

lemma set_np_where_eq: "set (np_where_eq v c) = {i. i < length v \<and> v ! i = c}"
  by (auto simp: np_where_eq_def)

lemma sorted_np_where_eq: "sorted_wrt (<) (np_where_eq v c)"
  by (simp add: np_where_eq_def sorted_wrt_filter)

lemma distinct_np_where_eq: "distinct (np_where_eq v c)"
  by (simp add: np_where_eq_def)

lemma np_where_eq_nonempty:
  assumes "c \<in> set v"
  shows "np_where_eq v c \<noteq> []"
proof -
  from assms obtain i where "i < length v" "v ! i = c" by (auto simp: in_set_conv_nth)
  then have "i \<in> set (np_where_eq v c)" by (simp add: set_np_where_eq)
  then show ?thesis by auto
qed

lemma distinct_singleton_set:
  assumes "distinct xs" and "set xs = {k}"
  shows "xs = [k]"
proof (cases xs)
  case Nil
  with assms show ?thesis by simp
next
  case (Cons x rest)
  with assms have "x = k" and "set rest \<subseteq> {k}" and "k \<notin> set rest" by auto
  then have "rest = []" by (cases rest) auto
  with Cons \<open>x = k\<close> show ?thesis by simp
qed

lemma length_connections: "length (connections a) = length a"
  by (simp add: connections_def np_sum_axis1_def)

lemma length_adjacency_matrix: "length (adjacency_matrix nodes c) = length nodes"
  by (simp add: adjacency_matrix_def)

text \<open>The definitions a concrete run unfolds.\<close>

lemmas run_defs =
  most_connected_nodes_def connections_def np_sum_axis1_def np_max_def np_min_def
  np_where_eq_def upt_rec determine_anchor_def entry_def min_distance_set_def
  distances_def secondary_choice_def np_take_rows_def first_of_def nodes_at_def

lemmas probe_defs =
  adjacency_matrix_def link_probe_def one_way_probe_def four_nodes_def

lemmas example_defs =
  star_links_def pairs_links_def path_links_def fork_links_def lone_links_def
  one_way_links_def self_links_def three_nodes_def two_nodes_def

lemma path_adjacency: "adjacency_matrix four_nodes (link_probe path_links) = path_matrix"
  by (simp add: probe_defs example_defs path_matrix_def)

lemma fork_adjacency: "adjacency_matrix four_nodes (link_probe fork_links) = fork_matrix"
  by (simp add: probe_defs example_defs fork_matrix_def)

lemma lone_adjacency: "adjacency_matrix three_nodes (link_probe lone_links) = lone_matrix"
  by (simp add: probe_defs example_defs lone_matrix_def)

lemma one_way_adjacency:
  "adjacency_matrix two_nodes (one_way_probe one_way_links) = one_way_matrix"
  by (simp add: probe_defs example_defs one_way_matrix_def)

section \<open>Candidate selection\<close>

text \<open>
  Claim C6. For an adjacency matrix with at least one row, \<^verbatim>\<open>most_connected_nodes\<close> returns
  (it does not raise) a non-empty list of indices, strictly ascending, whose members are
  exactly the indices whose row sum equals the maximum row sum.
\<close>

theorem most_connected_nodes_all_maxima:
  assumes "adj_matrix \<noteq> []"
  shows "\<exists>smc. most_connected_nodes adj_matrix = Inr smc \<and> smc \<noteq> [] \<and>
           sorted_wrt (<) smc \<and>
           set smc = {i. i < length adj_matrix \<and>
                         sum_list (adj_matrix ! i) = Max (set (map sum_list adj_matrix))}"
proof -
  let ?v = "connections adj_matrix"
  have ne: "?v \<noteq> []" using assms by (simp add: connections_def np_sum_axis1_def)
  then have mx: "np_max ?v = Inr (Max (set ?v))" by (simp add: np_max_Inr)
  have "Max (set ?v) \<in> set ?v" using ne by (intro Max_in) auto
  then have "np_where_eq ?v (Max (set ?v)) \<noteq> []" by (rule np_where_eq_nonempty)
  moreover have "most_connected_nodes adj_matrix = Inr (np_where_eq ?v (Max (set ?v)))"
    by (simp add: most_connected_nodes_def mx)
  moreover have "set (np_where_eq ?v (Max (set ?v))) =
      {i. i < length adj_matrix \<and>
          sum_list (adj_matrix ! i) = Max (set (map sum_list adj_matrix))}"
    by (auto simp: set_np_where_eq connections_def np_sum_axis1_def)
  ultimately show ?thesis by (simp add: sorted_np_where_eq)
qed

theorem most_connected_nodes_all_maxima_witness:
  "pairs_matrix \<noteq> [] \<and>
   (\<exists>smc. most_connected_nodes pairs_matrix = Inr smc \<and> smc \<noteq> [] \<and>
           sorted_wrt (<) smc \<and>
           set smc = {i. i < length pairs_matrix \<and>
                         sum_list (pairs_matrix ! i) = Max (set (map sum_list pairs_matrix))}) \<and>
   most_connected_nodes pairs_matrix = Inr [0, 1, 2, 3]"
proof -
  have h: "pairs_matrix \<noteq> []" by (simp add: pairs_matrix_def)
  have "most_connected_nodes pairs_matrix = Inr [0, 1, 2, 3]"
    by (simp add: pairs_matrix_def run_defs)
  with h most_connected_nodes_all_maxima [OF h] show ?thesis by blast
qed

section \<open>The singleton rule\<close>

lemma unique_max_is_Max:
  assumes "unique_max_degree a k"
  shows "Max (set (connections a)) = connections a ! k"
    and "{i. i < length (connections a) \<and> connections a ! i = connections a ! k} = {k}"
proof -
  let ?v = "connections a"
  from assms have k: "k < length ?v"
    and lt: "\<And>j. j < length ?v \<Longrightarrow> j \<noteq> k \<Longrightarrow> ?v ! j < ?v ! k"
    by (auto simp: unique_max_degree_def length_connections list_all_iff)
  have "\<And>x. x \<in> set ?v \<Longrightarrow> x \<le> ?v ! k"
  proof -
    fix x assume "x \<in> set ?v"
    then obtain j where "j < length ?v" "?v ! j = x" by (auto simp: in_set_conv_nth)
    then show "x \<le> ?v ! k" using lt [of j] by (cases "j = k") auto
  qed
  moreover have "?v ! k \<in> set ?v" using k by simp
  ultimately show "Max (set ?v) = ?v ! k" by (intro Max_eqI) auto
  show "{i. i < length ?v \<and> ?v ! i = ?v ! k} = {k}"
    using k lt by force
qed

lemma most_connected_nodes_unique:
  assumes "unique_max_degree a k"
  shows "most_connected_nodes a = Inr [k]"
proof -
  let ?v = "connections a"
  from assms have "?v \<noteq> []"
    by (auto simp: unique_max_degree_def connections_def np_sum_axis1_def)
  then have "np_max ?v = Inr (?v ! k)"
    by (simp add: np_max_Inr unique_max_is_Max(1) [OF assms])
  moreover have "np_where_eq ?v (?v ! k) = [k]"
    by (rule distinct_singleton_set)
       (simp_all add: distinct_np_where_eq set_np_where_eq unique_max_is_Max(2) [OF assms])
  ultimately show ?thesis by (simp add: most_connected_nodes_def)
qed

lemma determine_anchor_singleton: "determine_anchor nodes [k] a = nodes_at nodes k"
  by (simp add: determine_anchor_def)

lemma RI_SDN_unique_max:
  assumes "unique_max_degree (adjacency_matrix nodes c) k"
  shows "RI_SDN nodes c = Inr (nodes ! k)"
proof -
  from assms have "k < length nodes"
    by (simp add: unique_max_degree_def length_adjacency_matrix)
  then show ?thesis
    by (simp add: RI_SDN_def most_connected_nodes_unique [OF assms]
        determine_anchor_singleton nodes_at_def)
qed

text \<open>
  Claim C1. When exactly one node \<open>k\<close> of the snapshot attains the maximum degree (so the
  snapshot has at least one node), the pipeline returns the node at index \<open>k\<close>, whatever
  the other entries of the matrix are.
\<close>

theorem singleton_candidate_is_anchor:
  assumes "unique_max_degree (adjacency_matrix nodes connectionsTo) k"
  shows "most_connected_nodes (adjacency_matrix nodes connectionsTo) = Inr [k] \<and>
         RI_SDN nodes connectionsTo = Inr (nodes ! k)"
  using assms by (simp add: most_connected_nodes_unique RI_SDN_unique_max)

theorem singleton_candidate_is_anchor_witness:
  "unique_max_degree (adjacency_matrix four_nodes (link_probe star_links)) 0 \<and>
   most_connected_nodes (adjacency_matrix four_nodes (link_probe star_links)) = Inr [0] \<and>
   RI_SDN four_nodes (link_probe star_links) = Inr ''sta1''"
proof -
  have m: "adjacency_matrix four_nodes (link_probe star_links) =
      [[0, 1, 1, 1], [1, 0, 0, 0], [1, 0, 0, 0], [1, 0, 0, 0]]"
    by (simp add: probe_defs example_defs)
  have h: "unique_max_degree (adjacency_matrix four_nodes (link_probe star_links)) 0"
    unfolding m by (simp add: unique_max_degree_def connections_def np_sum_axis1_def upt_rec)
  have "four_nodes ! 0 = ''sta1''" by (simp add: four_nodes_def)
  with h singleton_candidate_is_anchor [OF h] show ?thesis by simp
qed

section \<open>The internal-disconnection rule\<close>

lemma find_append_option:
  "find P (xs @ ys) = (case find P xs of None \<Rightarrow> find P ys | Some x \<Rightarrow> Some x)"
  by (induction xs) auto

lemma find_Some_member: "find P xs = Some x \<Longrightarrow> x \<in> set xs \<and> P x"
  by (induction xs) (auto split: if_splits)

lemma find_map_Pair:
  "find P (map (Pair i) ys) = map_option (Pair i) (find (\<lambda>j. P (i, j)) ys)"
  by (induction ys) auto

lemma scan_inner_find:
  assumes "i < length a" and "list_all (\<lambda>j. j < length (a ! i)) js"
  shows "scan_inner a i js = Inr (find (\<lambda>j. i \<noteq> j \<and> a ! i ! j = 0) js \<noteq> None)"
  using assms by (induction js) (auto simp: entry_def)

lemma scan_outer_find:
  assumes "list_all (\<lambda>i. i < length a \<and> list_all (\<lambda>j. j < length (a ! i)) smc) is"
  shows "scan_outer a smc is =
           Inr (map_option fst
                  (find (\<lambda>(i, j). i \<noteq> j \<and> a ! i ! j = 0) (List.product is smc)))"
  using assms
proof (induction "is")
  case Nil
  then show ?case by simp
next
  case (Cons i rest)
  then have i: "i < length a" and js: "list_all (\<lambda>j. j < length (a ! i)) smc"
    and rest: "list_all (\<lambda>i. i < length a \<and> list_all (\<lambda>j. j < length (a ! i)) smc) rest"
    by simp_all
  show ?case
  proof (cases "find (\<lambda>j. i \<noteq> j \<and> a ! i ! j = 0) smc")
    case None
    then show ?thesis
      using Cons.IH [OF rest]
      by (simp add: scan_inner_find [OF i js] find_append_option find_map_Pair)
  next
    case (Some j)
    then show ?thesis
      by (simp add: scan_inner_find [OF i js] find_append_option find_map_Pair)
  qed
qed

lemma square_valid_rows:
  assumes "square a" and "valid_indices a smc"
  shows "list_all (\<lambda>i. i < length a \<and> list_all (\<lambda>j. j < length (a ! i)) smc) smc"
  using assms by (auto simp: square_def valid_indices_def list_all_iff)

lemma scan_outer_first_pair:
  assumes "square a" and "valid_indices a smc"
  shows "scan_outer a smc smc = Inr (map_option fst (first_disconnected_pair a smc))"
  by (simp add: scan_outer_find [OF square_valid_rows [OF assms]] first_disconnected_pair_def)

lemma pairs_adjacency:
  "adjacency_matrix four_nodes (link_probe pairs_links) = pairs_matrix"
  by (simp add: probe_defs example_defs pairs_matrix_def)

text \<open>
  Claim C2. For a candidate list of at least two members that is not a clique, the anchor
  is the node at the outer index \<open>i\<close> of the first ordered pair \<open>(i, j)\<close>, \<open>i \<noteq> j\<close>, in the
  scan order (outer and inner loop both in the order of the candidate list) whose entry
  is zero. In particular, on four nodes linked 0-1 and 2-3 the pipeline returns node 0.
\<close>

theorem first_disconnected_pair_is_anchor:
  "(square a \<and> valid_indices a smc \<and> length nodes = length a \<and> 2 \<le> length smc \<and>
    first_disconnected_pair a smc = Some (i, j)
    \<longrightarrow> determine_anchor nodes smc a = Inr (nodes ! i)) \<and>
   RI_SDN four_nodes (link_probe pairs_links) = Inr (four_nodes ! 0)"
proof (intro conjI impI)
  assume h: "square a \<and> valid_indices a smc \<and> length nodes = length a \<and> 2 \<le> length smc \<and>
    first_disconnected_pair a smc = Some (i, j)"
  then have "(i, j) \<in> set (List.product smc smc)"
    by (auto simp: first_disconnected_pair_def dest: find_Some_member)
  then have "i \<in> set smc" by simp
  with h have "i < length nodes" by (auto simp: valid_indices_def list_all_iff)
  with h show "determine_anchor nodes smc a = Inr (nodes ! i)"
    by (simp add: determine_anchor_def scan_outer_first_pair nodes_at_def)
next
  show "RI_SDN four_nodes (link_probe pairs_links) = Inr (four_nodes ! 0)"
    unfolding RI_SDN_def pairs_adjacency
    by (simp add: pairs_matrix_def run_defs four_nodes_def)
qed

theorem first_disconnected_pair_is_anchor_witness:
  "square pairs_matrix \<and> valid_indices pairs_matrix [0, 1, 2, 3] \<and>
   length four_nodes = length pairs_matrix \<and> 2 \<le> length [0, 1, 2, 3 :: nat] \<and>
   first_disconnected_pair pairs_matrix [0, 1, 2, 3] = Some (0, 2) \<and>
   determine_anchor four_nodes [0, 1, 2, 3] pairs_matrix = Inr ''sta1''"
proof -
  have h: "square pairs_matrix \<and> valid_indices pairs_matrix [0, 1, 2, 3] \<and>
    length four_nodes = length pairs_matrix \<and> 2 \<le> length [0, 1, 2, 3 :: nat] \<and>
    first_disconnected_pair pairs_matrix [0, 1, 2, 3] = Some (0, 2)"
    by (simp add: square_def valid_indices_def pairs_matrix_def four_nodes_def
        first_disconnected_pair_def)
  have "four_nodes ! 0 = ''sta1''" by (simp add: four_nodes_def)
  with h first_disconnected_pair_is_anchor [THEN conjunct1, rule_format, OF h]
  show ?thesis by simp
qed

section \<open>The global-degree fallback\<close>

lemma length_distances: "length (distances a) = length a"
  by (simp add: distances_def np_sum_axis1_def)

lemma distances_connections: "distances a = connections a"
  by (simp add: distances_def connections_def)

lemma min_distance_set_nonempty:
  assumes "a \<noteq> []"
  shows "min_distance_set a = Inr (np_where_eq (connections a) (Min (set (connections a))))"
    and "np_where_eq (connections a) (Min (set (connections a))) \<noteq> []"
proof -
  let ?v = "connections a"
  have ne: "?v \<noteq> []" using assms by (simp add: connections_def np_sum_axis1_def)
  then have "np_min ?v = Inr (Min (set ?v))" by (simp add: np_min_Inr)
  then show "min_distance_set a = Inr (np_where_eq ?v (Min (set ?v)))"
    by (simp add: min_distance_set_def distances_connections)
  have "Min (set ?v) \<in> set ?v" using ne by (intro Min_in) auto
  then show "np_where_eq ?v (Min (set ?v)) \<noteq> []" by (rule np_where_eq_nonempty)
qed

lemma unique_min_is_Min:
  assumes "unique_min_degree a k"
  shows "Min (set (connections a)) = connections a ! k"
    and "{i. i < length (connections a) \<and> connections a ! i = connections a ! k} = {k}"
proof -
  let ?v = "connections a"
  from assms have k: "k < length ?v"
    and lt: "\<And>j. j < length ?v \<Longrightarrow> j \<noteq> k \<Longrightarrow> ?v ! k < ?v ! j"
    by (auto simp: unique_min_degree_def length_connections list_all_iff)
  have "\<And>x. x \<in> set ?v \<Longrightarrow> ?v ! k \<le> x"
  proof -
    fix x assume "x \<in> set ?v"
    then obtain j where "j < length ?v" "?v ! j = x" by (auto simp: in_set_conv_nth)
    then show "?v ! k \<le> x" using lt [of j] by (cases "j = k") auto
  qed
  moreover have "?v ! k \<in> set ?v" using k by simp
  ultimately show "Min (set ?v) = ?v ! k" by (intro Min_eqI) auto
  show "{i. i < length ?v \<and> ?v ! i = ?v ! k} = {k}"
    using k lt by force
qed

lemma min_distance_set_unique:
  assumes "unique_min_degree a k"
  shows "min_distance_set a = Inr [k]"
proof -
  let ?v = "connections a"
  from assms have "a \<noteq> []" by (auto simp: unique_min_degree_def)
  moreover have "np_where_eq ?v (?v ! k) = [k]"
    by (rule distinct_singleton_set)
       (simp_all add: distinct_np_where_eq set_np_where_eq unique_min_is_Min(2) [OF assms])
  ultimately show ?thesis
    by (simp add: min_distance_set_nonempty(1) unique_min_is_Min(1) [OF assms])
qed

text \<open>
  Claim C4. The vector \<^verbatim>\<open>distances\<close> of the fallback stage equals, entry for entry, the
  degree vector \<^verbatim>\<open>connections\<close> of candidate selection, and for a matrix with at least one
  row the set \<^verbatim>\<open>sdc\<close> is computed and holds exactly the indices of minimum degree, in
  ascending order.
\<close>

theorem distances_are_degrees:
  "distances a = connections a \<and>
   (a \<noteq> [] \<longrightarrow>
     (\<exists>sdc. min_distance_set a = Inr sdc \<and> sorted_wrt (<) sdc \<and>
        set sdc = {i. i < length a \<and> connections a ! i = Min (set (connections a))}))"
proof (intro conjI impI)
  show "distances a = connections a" by (rule distances_connections)
next
  assume "a \<noteq> []"
  then have "min_distance_set a = Inr (np_where_eq (connections a) (Min (set (connections a))))"
    by (rule min_distance_set_nonempty(1))
  then show "\<exists>sdc. min_distance_set a = Inr sdc \<and> sorted_wrt (<) sdc \<and>
        set sdc = {i. i < length a \<and> connections a ! i = Min (set (connections a))}"
    by (simp add: sorted_np_where_eq set_np_where_eq length_connections)
qed

theorem distances_are_degrees_witness:
  "distances path_matrix = connections path_matrix \<and> path_matrix \<noteq> [] \<and>
   (\<exists>sdc. min_distance_set path_matrix = Inr sdc \<and> sorted_wrt (<) sdc \<and>
      set sdc = {i. i < length path_matrix \<and>
                    connections path_matrix ! i = Min (set (connections path_matrix))}) \<and>
   connections path_matrix = [1, 2, 2, 1] \<and> min_distance_set path_matrix = Inr [0, 3]"
proof -
  have h: "path_matrix \<noteq> []" by (simp add: path_matrix_def)
  have "connections path_matrix = [1, 2, 2, 1]"
    by (simp add: path_matrix_def connections_def np_sum_axis1_def)
  moreover have "min_distance_set path_matrix = Inr [0, 3]"
    by (simp add: path_matrix_def run_defs)
  ultimately show ?thesis
    using h distances_are_degrees [of path_matrix] by blast
qed

section \<open>The clique fallback\<close>

lemma forms_clique_no_pair:
  "forms_clique a smc \<longleftrightarrow> first_disconnected_pair a smc = None"
  by (auto simp: forms_clique_def first_disconnected_pair_def find_None_iff list_all_iff)

lemma scan_outer_clique:
  assumes "square a" and "valid_indices a smc" and "forms_clique a smc"
  shows "scan_outer a smc smc = Inr None"
  using assms(3) by (simp add: scan_outer_first_pair [OF assms(1,2)] forms_clique_no_pair)

lemma determine_anchor_unique_min:
  assumes "square a" and "valid_indices a smc" and "length nodes = length a"
    and "length smc \<noteq> 1" and "forms_clique a smc" and "unique_min_degree a k"
  shows "determine_anchor nodes smc a = Inr (nodes ! k)"
proof -
  from assms(3,6) have "k < length nodes" by (simp add: unique_min_degree_def)
  then show ?thesis
    using assms(4)
    by (simp add: determine_anchor_def scan_outer_clique [OF assms(1,2,5)]
        min_distance_set_unique [OF assms(6)] nodes_at_def)
qed

lemma distinct_has_unique_max:
  assumes "a \<noteq> []" and "distinct (connections a)"
  shows "\<exists>k. unique_max_degree a k"
proof -
  let ?v = "connections a"
  have ne: "?v \<noteq> []" using assms(1) by (simp add: connections_def np_sum_axis1_def)
  then have "Max (set ?v) \<in> set ?v" by (intro Max_in) auto
  then obtain k where k: "k < length ?v" "?v ! k = Max (set ?v)"
    by (auto simp: in_set_conv_nth)
  have lt: "?v ! j < ?v ! k" if "j < length ?v" "j \<noteq> k" for j
  proof -
    have "?v ! j \<le> Max (set ?v)" using that(1) by (intro Max_ge) auto
    moreover have "?v ! j \<noteq> ?v ! k"
      using assms(2) that k(1) by (simp add: nth_eq_iff_index_eq)
    ultimately show ?thesis using k(2) by simp
  qed
  have "list_all (\<lambda>j. j = k \<or> ?v ! j < ?v ! k) [0..<length a]"
    unfolding list_all_iff
  proof
    fix j assume "j \<in> set [0..<length a]"
    then have "j < length ?v" by (simp add: length_connections)
    then show "j = k \<or> ?v ! j < ?v ! k" using lt [of j] by (cases "j = k") simp_all
  qed
  with k(1) have "unique_max_degree a k"
    by (simp add: unique_max_degree_def length_connections)
  then show ?thesis ..
qed

text \<open>
  Pairwise distinct degrees leave one node of maximum degree, so the candidate list is a
  singleton and rule 1 answers before any fallback. With a probe that reports a link from
  one end only, two nodes can have distinct degrees, and the anchor is then the node of
  maximum degree.
\<close>

lemma one_way_probe_maximum_anchor:
  "adjacency_matrix two_nodes (one_way_probe one_way_links) = one_way_matrix \<and>
   connections one_way_matrix = [1, 0] \<and> distinct (connections one_way_matrix) \<and>
   most_connected_nodes one_way_matrix = Inr [0] \<and> forms_clique one_way_matrix [0] \<and>
   unique_min_degree one_way_matrix 1 \<and>
   RI_SDN two_nodes (one_way_probe one_way_links) = Inr (two_nodes ! 0) \<and>
   RI_SDN two_nodes (one_way_probe one_way_links) \<noteq> Inr (two_nodes ! 1)"
proof -
  have r: "RI_SDN two_nodes (one_way_probe one_way_links) = Inr ''sta1''"
    unfolding RI_SDN_def one_way_adjacency
    by (simp add: one_way_matrix_def run_defs two_nodes_def)
  have "RI_SDN two_nodes (one_way_probe one_way_links) = Inr (two_nodes ! 0)"
    and "RI_SDN two_nodes (one_way_probe one_way_links) \<noteq> Inr (two_nodes ! 1)"
    unfolding r by (simp_all add: two_nodes_def)
  moreover have c: "connections one_way_matrix = [1, 0]"
    by (simp add: one_way_matrix_def connections_def np_sum_axis1_def)
  moreover have "most_connected_nodes one_way_matrix = Inr [0]"
    by (simp add: one_way_matrix_def run_defs)
  moreover have "forms_clique one_way_matrix [0]"
    by (simp add: forms_clique_def)
  moreover have "unique_min_degree one_way_matrix 1"
    by (simp add: unique_min_degree_def one_way_matrix_def connections_def np_sum_axis1_def
        upt_rec)
  moreover have "distinct (connections one_way_matrix)"
    unfolding c by simp
  ultimately show ?thesis using one_way_adjacency by blast
qed

section \<open>The secondary-connectivity fallback\<close>

text \<open>
  Every member of \<^verbatim>\<open>sdc\<close> has the minimum row sum, so \<^verbatim>\<open>smc_connections\<close> is constant,
  every position attains its maximum, and \<^verbatim>\<open>anchor_candidates[0]\<close> is position 0.
\<close>

lemma np_where_eq_replicate: "0 < n \<Longrightarrow> np_where_eq (replicate n c) c = [0..<n]"
  by (auto simp: np_where_eq_def intro: filter_True)

lemma secondary_choice_min_set:
  assumes "min_distance_set a = Inr sdc"
  shows "secondary_choice a sdc = Inr 0"
proof -
  let ?v = "connections a"
  from assms have ne: "a \<noteq> []"
    by (cases a) (auto simp: min_distance_set_def distances_def np_sum_axis1_def np_min_def)
  from assms have sdc: "sdc = np_where_eq ?v (Min (set ?v))"
    by (simp add: min_distance_set_nonempty(1) [OF ne])
  then have sdc_ne: "sdc \<noteq> []" by (simp add: min_distance_set_nonempty(2) [OF ne])
  have mem: "\<And>k. k \<in> set sdc \<Longrightarrow> k < length a \<and> sum_list (a ! k) = Min (set ?v)"
    unfolding sdc by (auto simp: set_np_where_eq connections_def np_sum_axis1_def)
  then have rows: "np_take_rows a sdc = Inr (map (\<lambda>k. a ! k) sdc)"
    by (simp add: np_take_rows_def list_all_iff)
  have sums: "np_sum_axis1 (map (\<lambda>k. a ! k) sdc) = replicate (length sdc) (Min (set ?v))"
    using mem by (simp add: np_sum_axis1_def map_replicate_const [symmetric] cong: map_cong)
  have len: "0 < length sdc" using sdc_ne by simp
  then have mx: "np_max (replicate (length sdc) (Min (set ?v))) = Inr (Min (set ?v))"
    by (auto simp: np_max_Inr)
  have "first_of [0..<length sdc] = Inr 0"
    using len by (simp add: first_of_def upt_rec)
  then show ?thesis
    by (simp add: secondary_choice_def rows sums mx np_where_eq_replicate [OF len])
qed

lemma determine_anchor_secondary:
  assumes "square a" and "valid_indices a smc" and "length smc \<noteq> 1"
    and "forms_clique a smc" and "min_distance_set a = Inr sdc" and "length sdc \<noteq> 1"
  shows "determine_anchor nodes smc a = nodes_at nodes 0"
  using assms(3,6)
  by (simp add: determine_anchor_def scan_outer_clique [OF assms(1,2,4)] assms(5)
      secondary_choice_min_set [OF assms(5)])

text \<open>
  Claim C3 says the fallback returns the node whose index is the first member of \<^verbatim>\<open>sdc\<close>
  attaining the maximum secondary score. On the links 0-1, 0-2, 1-3 the candidates
  \<open>[0, 1]\<close> form a clique and \<^verbatim>\<open>sdc\<close> is \<open>[2, 3]\<close>, whose first member is node 2
  (\<open>ap1\<close>); the source indexes \<^verbatim>\<open>nodes\<close> with the position 0 and returns node 0 (\<open>sta1\<close>).
\<close>

theorem secondary_fallback_returns_position:
  "adjacency_matrix four_nodes (link_probe fork_links) = fork_matrix \<and>
   most_connected_nodes fork_matrix = Inr [0, 1] \<and>
   scan_outer fork_matrix [0, 1] [0, 1] = Inr None \<and>
   min_distance_set fork_matrix = Inr [2, 3] \<and>
   secondary_choice fork_matrix [2, 3] = Inr 0 \<and>
   RI_SDN four_nodes (link_probe fork_links) = Inr ''sta1'' \<and>
   four_nodes ! 0 = ''sta1'' \<and> four_nodes ! 2 = ''ap1''"
proof -
  have "RI_SDN four_nodes (link_probe fork_links) = Inr ''sta1''"
    unfolding RI_SDN_def fork_adjacency
    by (simp add: fork_matrix_def run_defs four_nodes_def)
  moreover have "most_connected_nodes fork_matrix = Inr [0, 1]"
    by (simp add: fork_matrix_def run_defs)
  moreover have "scan_outer fork_matrix [0, 1] [0, 1] = Inr None"
    by (simp add: fork_matrix_def run_defs)
  moreover have "min_distance_set fork_matrix = Inr [2, 3]"
    by (simp add: fork_matrix_def run_defs)
  moreover have "secondary_choice fork_matrix [2, 3] = Inr 0"
    by (simp add: fork_matrix_def run_defs)
  moreover have "four_nodes ! 0 = ''sta1''" and "four_nodes ! 2 = ''ap1''"
    by (simp_all add: four_nodes_def)
  ultimately show ?thesis using fork_adjacency by blast
qed

text \<open>
  Claim C10. The resolved anchor need not be a most-connected node. On the path 0-1-2-3
  the candidates are \<open>[1, 2]\<close>, a clique, and the pipeline returns the leaf node 0; on
  three nodes with the single link 0-1 the candidates are \<open>[0, 1]\<close> and the pipeline
  returns the unlinked node 2.
\<close>

theorem path_anchor_outside_candidates:
  "adjacency_matrix four_nodes (link_probe path_links) = path_matrix \<and>
   most_connected_nodes path_matrix = Inr [1, 2] \<and>
   forms_clique path_matrix [1, 2] \<and>
   RI_SDN four_nodes (link_probe path_links) = Inr (four_nodes ! 0) \<and>
   four_nodes ! 0 \<notin> set (map (\<lambda>i. four_nodes ! i) [1, 2]) \<and>
   adjacency_matrix three_nodes (link_probe lone_links) = lone_matrix \<and>
   most_connected_nodes lone_matrix = Inr [0, 1] \<and>
   RI_SDN three_nodes (link_probe lone_links) = Inr (three_nodes ! 2) \<and>
   three_nodes ! 2 \<notin> set (map (\<lambda>i. three_nodes ! i) [0, 1])"
proof -
  have "RI_SDN four_nodes (link_probe path_links) = Inr (four_nodes ! 0)"
    unfolding RI_SDN_def path_adjacency
    by (simp add: path_matrix_def run_defs four_nodes_def)
  moreover have "most_connected_nodes path_matrix = Inr [1, 2]"
    by (simp add: path_matrix_def run_defs)
  moreover have "forms_clique path_matrix [1, 2]"
    by (simp add: path_matrix_def forms_clique_def)
  moreover have "four_nodes ! 0 \<notin> set (map (\<lambda>i. four_nodes ! i) [1, 2])"
    by (simp add: four_nodes_def)
  moreover have "RI_SDN three_nodes (link_probe lone_links) = Inr (three_nodes ! 2)"
    unfolding RI_SDN_def lone_adjacency
    by (simp add: lone_matrix_def run_defs three_nodes_def)
  moreover have "most_connected_nodes lone_matrix = Inr [0, 1]"
    by (simp add: lone_matrix_def run_defs)
  moreover have "three_nodes ! 2 \<notin> set (map (\<lambda>i. three_nodes ! i) [0, 1])"
    by (simp add: three_nodes_def)
  ultimately show ?thesis using path_adjacency lone_adjacency by blast
qed

section \<open>The adjacency-matrix builder\<close>

lemma nth_adjacency_matrix:
  assumes "i < length nodes" and "j < length nodes"
  shows "adjacency_matrix nodes c ! i ! j =
           (if nodes ! j \<in> set (c (nodes ! i) nodes) then 1 else 0)"
  using assms by (simp add: adjacency_matrix_def)


lemma adjacency_matrix_undirected:
  assumes "undirected_probe nodes c" and "loop_free_probe nodes c"
  shows "symmetric (adjacency_matrix nodes c) \<and> zero_diagonal (adjacency_matrix nodes c)"
proof -
  have sym: "(nodes ! j \<in> set (c (nodes ! i) nodes)) = (nodes ! i \<in> set (c (nodes ! j) nodes))"
    if "i < length nodes" "j < length nodes" for i j
    using assms(1) that by (simp add: undirected_probe_def list_all_iff)
  have irr: "nodes ! i \<notin> set (c (nodes ! i) nodes)" if "i < length nodes" for i
    using assms(2) that by (simp add: loop_free_probe_def list_all_iff)
  have "symmetric (adjacency_matrix nodes c)"
    using sym by (simp add: symmetric_def list_all_iff length_adjacency_matrix nth_adjacency_matrix)
  moreover have "zero_diagonal (adjacency_matrix nodes c)"
    using irr
    by (simp add: zero_diagonal_def list_all_iff length_adjacency_matrix nth_adjacency_matrix)
  ultimately show ?thesis ..
qed

text \<open>
  The builder copies what the probe reports and adds nothing: a link reported from one end
  only gives a matrix that is not symmetric, and a node reported as its own neighbour a
  diagonal entry 1. Symmetry and the zero diagonal come from the snapshot.
\<close>

lemma builder_copies_probe:
  "adjacency_matrix two_nodes (one_way_probe one_way_links) = [[0, 1], [0, 0]] \<and>
   \<not> symmetric (adjacency_matrix two_nodes (one_way_probe one_way_links)) \<and>
   adjacency_matrix two_nodes (link_probe self_links) = [[1, 0], [0, 0]] \<and>
   \<not> zero_diagonal (adjacency_matrix two_nodes (link_probe self_links))"
proof -
  have a: "adjacency_matrix two_nodes (one_way_probe one_way_links) = [[0, 1], [0, 0]]"
    by (simp add: probe_defs example_defs)
  have b: "adjacency_matrix two_nodes (link_probe self_links) = [[1, 0], [0, 0]]"
    by (simp add: probe_defs example_defs)
  show ?thesis unfolding a b by (simp add: symmetric_def zero_diagonal_def upt_rec)
qed

text \<open>
  Claim C7. For every snapshot, that is, connectivity that is undirected on the node list
  (\<open>y\<close> is reported for \<open>x\<close> exactly when \<open>x\<close> is reported for \<open>y\<close>) and in which no node
  is its own neighbour, the matrix the builder returns is symmetric and has a zero
  diagonal.
\<close>

theorem adjacency_matrix_symmetric_zero_diagonal:
  assumes "undirected_probe nodes connectionsTo" and "loop_free_probe nodes connectionsTo"
  shows "symmetric (adjacency_matrix nodes connectionsTo) \<and>
         zero_diagonal (adjacency_matrix nodes connectionsTo)"
  using assms by (rule adjacency_matrix_undirected)

theorem adjacency_matrix_symmetric_zero_diagonal_witness:
  "undirected_probe four_nodes (link_probe path_links) \<and>
   loop_free_probe four_nodes (link_probe path_links) \<and>
   symmetric (adjacency_matrix four_nodes (link_probe path_links)) \<and>
   zero_diagonal (adjacency_matrix four_nodes (link_probe path_links)) \<and>
   adjacency_matrix four_nodes (link_probe path_links) =
     [[0, 1, 0, 0], [1, 0, 1, 0], [0, 1, 0, 1], [0, 0, 1, 0]]"
proof -
  have u: "undirected_probe four_nodes (link_probe path_links)"
    by (simp add: undirected_probe_def probe_defs example_defs)
  have l: "loop_free_probe four_nodes (link_probe path_links)"
    by (simp add: loop_free_probe_def probe_defs example_defs)
  from u l adjacency_matrix_symmetric_zero_diagonal [OF u l] path_adjacency
  show ?thesis by (simp add: path_matrix_def)
qed

text \<open>
  Claim C8, as the code has it. On the empty node list the builder returns the empty
  matrix; it raises nothing.
\<close>

theorem empty_node_list_counterexample:
  "adjacency_matrix ([] :: string list) (link_probe []) = []"
  by (simp add: adjacency_matrix_def)

text \<open>
  Claim C8, amended. On the empty node list the builder returns the empty matrix, and the
  run fails in the next step, candidate selection, with the \<^verbatim>\<open>ValueError\<close> of \<^verbatim>\<open>np.max\<close>
  on an empty degree vector.
\<close>

theorem empty_node_list_fails_in_selection:
  "adjacency_matrix [] connectionsTo = [] \<and>
   most_connected_nodes (adjacency_matrix [] connectionsTo) = Inl ValueError \<and>
   RI_SDN [] connectionsTo = Inl ValueError"
  by (simp add: adjacency_matrix_def RI_SDN_def most_connected_nodes_def connections_def
      np_sum_axis1_def np_max_def)

section \<open>Degrees of undirected snapshots\<close>









section \<open>Inputs \<^verbatim>\<open>determine_anchor\<close> does not check\<close>

lemma determine_anchor_total:
  assumes "a \<noteq> []" and "square a" and "valid_indices a smc" and "length a \<le> length nodes"
  shows "\<exists>anchor. determine_anchor nodes smc a = Inr anchor \<and> anchor \<in> set nodes"
proof -
  have at: "\<exists>anchor. nodes_at nodes i = Inr anchor \<and> anchor \<in> set nodes" if "i < length a" for i
    using that assms(4) by (simp add: nodes_at_def)
  have smc: "\<And>i. i \<in> set smc \<Longrightarrow> i < length a"
    using assms(3) by (simp add: valid_indices_def list_all_iff)
  show ?thesis
  proof (cases "length smc = 1")
    case True
    then have "smc ! 0 \<in> set smc" by (cases smc) auto
    then show ?thesis using True at [OF smc] by (simp add: determine_anchor_def)
  next
    case False
    show ?thesis
    proof (cases "first_disconnected_pair a smc")
      case (Some p)
      obtain i j where p: "p = (i, j)" by (cases p)
      with Some have "(i, j) \<in> set (List.product smc smc)"
        by (auto simp: first_disconnected_pair_def dest: find_Some_member)
      then have "i < length a" using smc by simp
      then show ?thesis
        using False Some p at [of i]
        by (simp add: determine_anchor_def scan_outer_first_pair [OF assms(2,3)])
    next
      case None
      let ?sdc = "np_where_eq (connections a) (Min (set (connections a)))"
      have sdc: "min_distance_set a = Inr ?sdc" and ne: "?sdc \<noteq> []"
        by (rule min_distance_set_nonempty [OF assms(1)])+
      have mem: "\<And>i. i \<in> set ?sdc \<Longrightarrow> i < length a"
        by (simp add: set_np_where_eq length_connections)
      show ?thesis
      proof (cases "length ?sdc = 1")
        case True
        then have "?sdc ! 0 \<in> set ?sdc" by (cases ?sdc) auto
        then have "?sdc ! 0 < length a" by (rule mem)
        then show ?thesis
          using False None True at [of "?sdc ! 0"]
          by (simp add: determine_anchor_def scan_outer_first_pair [OF assms(2,3)] sdc)
      next
        case long: False
        have "0 < length a" using assms(1) by simp
        then show ?thesis
          using False None long at [of 0]
          by (simp add: determine_anchor_def scan_outer_first_pair [OF assms(2,3)] sdc
              secondary_choice_min_set [OF sdc])
      qed
    qed
  qed
qed

text \<open>
  Claim C9, as the code has it. With an empty candidate list and a one-node matrix
  \<^verbatim>\<open>determine_anchor\<close> returns that node, and with four nodes against a 1 x 1 matrix it
  returns node 0: neither input is refused.
\<close>

theorem unchecked_inputs_counterexample:
  "determine_anchor [''sta1''] [] [[0]] = Inr ''sta1'' \<and>
   determine_anchor four_nodes [0] [[0]] = Inr ''sta1''"
  by (simp add: run_defs four_nodes_def)

text \<open>
  Claim C9, amended. \<^verbatim>\<open>determine_anchor\<close> validates nothing. For a non-empty square matrix,
  candidate indices inside the matrix (the empty candidate list included) and a node list
  at least as long as the matrix (so also a longer one), it returns a node of the list.
  With the empty matrix and the empty candidate list it fails with the \<^verbatim>\<open>ValueError\<close> of
  \<^verbatim>\<open>np.min\<close>.
\<close>

theorem determine_anchor_unchecked:
  "(a \<noteq> [] \<and> square a \<and> valid_indices a smc \<and> length a \<le> length nodes \<longrightarrow>
      (\<exists>anchor. determine_anchor nodes smc a = Inr anchor \<and> anchor \<in> set nodes)) \<and>
   determine_anchor nodes [] [] = Inl ValueError"
proof (intro conjI impI)
  assume "a \<noteq> [] \<and> square a \<and> valid_indices a smc \<and> length a \<le> length nodes"
  then show "\<exists>anchor. determine_anchor nodes smc a = Inr anchor \<and> anchor \<in> set nodes"
    by (simp add: determine_anchor_total)
next
  show "determine_anchor nodes [] [] = Inl ValueError"
    by (simp add: run_defs)
qed

theorem determine_anchor_unchecked_witness:
  "lone_matrix \<noteq> [] \<and> square lone_matrix \<and> valid_indices lone_matrix [] \<and>
   length lone_matrix \<le> length four_nodes \<and>
   (\<exists>anchor. determine_anchor four_nodes [] lone_matrix = Inr anchor \<and> anchor \<in> set four_nodes) \<and>
   determine_anchor four_nodes [] lone_matrix = Inr ''ap1''"
proof -
  have h: "lone_matrix \<noteq> [] \<and> square lone_matrix \<and> valid_indices lone_matrix [] \<and>
    length lone_matrix \<le> length four_nodes"
    by (simp add: lone_matrix_def square_def valid_indices_def four_nodes_def)
  have "determine_anchor four_nodes [] lone_matrix = Inr ''ap1''"
    by (simp add: lone_matrix_def run_defs four_nodes_def)
  with h determine_anchor_unchecked [THEN conjunct1, rule_format, OF h]
  show ?thesis by simp
qed

end
